theory Spec2Isabelle
  imports Complex_Main
begin

section \<open>JavaScript values used by the module\<close>

text \<open>
  The module \<^verbatim>\<open>src/index.js\<close> computes with JavaScript numbers, strings and
  \<^verbatim>\<open>undefined\<close>. Numbers are modelled by \<open>jsnum\<close>: the three special values of
  IEEE arithmetic and the finite numbers. Finite numbers are exact rationals: the
  rounding and the overflow of binary64 are not represented, and there is one zero.
  The sign of a zero cannot be observed through this module: a zero is only ever
  tested for truthiness (both zeros are falsy), and the only divisors are the squared
  elapsed time and the positive constants of the unit conversion.
\<close>

datatype jsnum = NaN | PInf | NInf | Fin rat

definition js_inf :: "bool \<Rightarrow> jsnum" where
  "js_inf negative = (if negative then NInf else PInf)"

fun is_neg :: "jsnum \<Rightarrow> bool" where
  "is_neg NInf = True"
| "is_neg (Fin a) = (a < 0)"
| "is_neg _ = False"

text \<open>The operators \<^verbatim>\<open>-\<close>, \<^verbatim>\<open>*\<close> and \<^verbatim>\<open>/\<close> on numbers.\<close>

fun js_sub :: "jsnum \<Rightarrow> jsnum \<Rightarrow> jsnum" where
  "js_sub NaN _ = NaN"
| "js_sub _ NaN = NaN"
| "js_sub (Fin a) (Fin b) = Fin (a - b)"
| "js_sub PInf PInf = NaN"
| "js_sub NInf NInf = NaN"
| "js_sub PInf _ = PInf"
| "js_sub NInf _ = NInf"
| "js_sub (Fin a) PInf = NInf"
| "js_sub (Fin a) NInf = PInf"

fun js_mul :: "jsnum \<Rightarrow> jsnum \<Rightarrow> jsnum" where
  "js_mul NaN _ = NaN"
| "js_mul _ NaN = NaN"
| "js_mul (Fin a) (Fin b) = Fin (a * b)"
| "js_mul x y = (if x = Fin 0 \<or> y = Fin 0 then NaN else js_inf (is_neg x \<noteq> is_neg y))"

fun js_div :: "jsnum \<Rightarrow> jsnum \<Rightarrow> jsnum" where
  "js_div NaN _ = NaN"
| "js_div _ NaN = NaN"
| "js_div (Fin a) (Fin b) =
     (if b = 0 then (if a = 0 then NaN else js_inf (a < 0)) else Fin (a / b))"
| "js_div (Fin a) _ = Fin 0"
| "js_div x (Fin b) = js_inf (is_neg x \<noteq> (b < 0))"
| "js_div _ _ = NaN"

text \<open>
  Primitive values (\<open>prim\<close>) are what an option or a parsed field can hold. A property
  read may also find a member inherited from \<^verbatim>\<open>Object.prototype\<close>; \<open>Builtin k\<close>
  stands for the member named \<open>k\<close> (a function, or the prototype object itself for
  \<^verbatim>\<open>__proto__\<close>), of which only its truthiness matters here.
\<close>

datatype prim = JUndefined | JNull | JBool bool | JNum jsnum | JStr string

datatype jsval = Prim prim | Builtin string

fun truthy_prim :: "prim \<Rightarrow> bool" where
  "truthy_prim JUndefined = False"
| "truthy_prim JNull = False"
| "truthy_prim (JBool b) = b"
| "truthy_prim (JNum n) = (n \<noteq> NaN \<and> n \<noteq> Fin 0)"
| "truthy_prim (JStr s) = (s \<noteq> [])"

fun truthy :: "jsval \<Rightarrow> bool" where
  "truthy (Prim p) = truthy_prim p"
| "truthy (Builtin k) = True"

text \<open>
  The names of the own properties of \<^verbatim>\<open>Object.prototype\<close>, which every object
  literal inherits.
\<close>

definition object_prototype_names :: "string list" where
  "object_prototype_names =
     [''constructor'', ''__defineGetter__'', ''__defineSetter__'', ''hasOwnProperty'',
      ''__lookupGetter__'', ''__lookupSetter__'', ''isPrototypeOf'',
      ''propertyIsEnumerable'', ''toString'', ''valueOf'', ''__proto__'',
      ''toLocaleString'']"

text \<open>
  The conversions of strings to numbers and of numbers to strings belong to the
  language runtime, not to the module. They are parameters of the model.
\<close>

record runtime =
  StringToNumber :: "string \<Rightarrow> jsnum"
  NumberToString :: "jsnum \<Rightarrow> string"

fun to_number :: "runtime \<Rightarrow> prim \<Rightarrow> jsnum" where
  "to_number rt JUndefined = NaN"
| "to_number rt JNull = Fin 0"
| "to_number rt (JBool b) = Fin (if b then 1 else 0)"
| "to_number rt (JNum n) = n"
| "to_number rt (JStr s) = StringToNumber rt s"

fun to_property_key :: "runtime \<Rightarrow> prim \<Rightarrow> string" where
  "to_property_key rt JUndefined = ''undefined''"
| "to_property_key rt JNull = ''null''"
| "to_property_key rt (JBool b) = (if b then ''true'' else ''false'')"
| "to_property_key rt (JNum n) = NumberToString rt n"
| "to_property_key rt (JStr s) = s"

section \<open>Unit conversion: \<^verbatim>\<open>_bytesTo\<close>\<close>

text \<open>
  The object literal of \<^verbatim>\<open>_bytesTo\<close> is evaluated property by property, in order,
  and each compound assignment \<^verbatim>\<open>bytes /= c\<close> divides the value the previous one left.
\<close>

definition unit_table :: "jsnum \<Rightarrow> (string \<times> jsnum) list" where
  "unit_table bytes =
     (let KiB = Fin 1024;
          MiB = js_mul (Fin 1024) KiB;
          GiB = js_mul (Fin 1024) MiB;
          b0 = bytes;
          b1 = js_div b0 KiB;
          b2 = js_div b1 MiB;
          b3 = js_div b2 GiB
      in [(''bytes'', b0), (''KiB'', b1), (''MiB'', b2), (''GiB'', b3)])"

text \<open>Reading a property of the literal: own properties first, then the prototype.\<close>

definition literal_get :: "(string \<times> jsnum) list \<Rightarrow> string \<Rightarrow> jsval" where
  "literal_get obj k =
     (case map_of obj k of
        Some n \<Rightarrow> Prim (JNum n)
      | None \<Rightarrow> if k \<in> set object_prototype_names then Builtin k else Prim JUndefined)"

definition quoted :: "string \<Rightarrow> string" where
  "quoted s = [CHR 0x22] @ s @ [CHR 0x22]"

definition unknown_units_message :: "string \<Rightarrow> string" where
  "unknown_units_message units =
     [CHR 0x27] @ ''[disk-stats] Error: Unknown units '' @ quoted units @
     '', use one of: '' @ quoted ''bytes'' @ '' (default), '' @ quoted ''KiB'' @
     '', '' @ quoted ''MiB'' @ '' or '' @ quoted ''GiB'' @ [CHR 0x27] @ '';''"

text \<open>
  \<open>bytesTo\<close> returns the value of the function and the lines it writes to the
  console. \<^verbatim>\<open>console.log\<close> returns \<^verbatim>\<open>undefined\<close>, which is then the value of
  \<^verbatim>\<open>converted || console.log(...)\<close>.
\<close>

definition bytesTo :: "jsnum \<Rightarrow> string \<Rightarrow> jsval \<times> string list" where
  "bytesTo bytes units =
     (let converted = literal_get (unit_table bytes) units
      in if truthy converted then (converted, [])
         else (Prim JUndefined, [unknown_units_message units]))"

section \<open>Reading the statistics file: \<^verbatim>\<open>_parseProcDiskstats\<close>\<close>

text \<open>
  Strings are lists of characters; a character stands for a code unit below 256. The
  white space of \<^verbatim>\<open>trim\<close> and of the regular expression \<^verbatim>\<open>\s\<close> in that range is
  tab, line feed, vertical tab, form feed, carriage return, space and no-break space.
\<close>

definition is_space :: "char \<Rightarrow> bool" where
  "is_space c = (c \<in> set [CHR 0x09, CHR 0x0A, CHR 0x0B, CHR 0x0C, CHR 0x0D, CHR 0x20, CHR 0xA0])"

definition trim :: "string \<Rightarrow> string" where
  "trim s = rev (dropWhile is_space (rev (dropWhile is_space s)))"

text \<open>
  \<^verbatim>\<open>split('\n')\<close>: the pieces between line feeds; the empty string gives one empty
  piece. The result is never empty, so the last case of the inner \<open>case\<close> is not reached.
\<close>

fun split_nl :: "string \<Rightarrow> string list" where
  "split_nl [] = [[]]"
| "split_nl (c # cs) =
     (if c = CHR 0x0A then [] # split_nl cs
      else (case split_nl cs of w # ws \<Rightarrow> (c # w) # ws | [] \<Rightarrow> [[c]]))"

text \<open>
  \<^verbatim>\<open>split(/\s+/)\<close>: the pieces between maximal runs of white space. A string that
  starts (ends) with white space gives an empty first (last) piece, and the empty
  string gives one empty piece.
\<close>

function split_ws :: "string \<Rightarrow> string list" where
  "split_ws s =
     (let w = takeWhile (\<lambda>c. \<not> is_space c) s;
          r = dropWhile (\<lambda>c. \<not> is_space c) s
      in if r = [] then [w] else w # split_ws (dropWhile is_space r))"
  by pat_completeness auto
termination
proof (relation "measure length")
  show "wf (measure length)" by simp
next
  fix s w :: string and r :: string
  assume r: "r = dropWhile (\<lambda>c. \<not> is_space c) s" and ne: "r \<noteq> []"
  from ne have "is_space (hd r)"
    unfolding r using hd_dropWhile [of "\<lambda>c. \<not> is_space c" s] by simp
  with ne have "dropWhile is_space r = dropWhile is_space (tl r)"
    by (cases r) simp_all
  moreover have "length (dropWhile is_space (tl r)) \<le> length (tl r)"
    by (rule length_dropWhile_le)
  ultimately have "length (dropWhile is_space r) \<le> length (tl r)"
    by (simp only:)
  also from ne have "\<dots> < length r" by (cases r) simp_all
  also have "\<dots> \<le> length s" unfolding r by (rule length_dropWhile_le)
  finally show "(dropWhile is_space r, s) \<in> measure length" by simp
qed

declare split_ws.simps [simp del]

text \<open>
  The record the parser builds for one line (lines 56 to 70). Every field is the text
  of a positional value; reading an array past its end gives \<^verbatim>\<open>undefined\<close>.
\<close>

record devstats =
  deviceNumber :: prim
  deviceNumberMinor :: prim
  readsCompleted :: prim
  readsMerged :: prim
  sectorsRead :: prim
  msReading :: prim
  writesCompleted :: prim
  writesMerged :: prim
  sectorsWritten :: prim
  msWriting :: prim
  iosPending :: prim
  msIo :: prim
  msWeightedIo :: prim

definition nth_value :: "string list \<Rightarrow> nat \<Rightarrow> prim" where
  "nth_value vs i = (if i < length vs then JStr (vs ! i) else JUndefined)"

definition stats_of :: "string list \<Rightarrow> devstats" where
  "stats_of vs =
     \<lparr>deviceNumber = nth_value vs 0,
      deviceNumberMinor = nth_value vs 1,
      readsCompleted = nth_value vs 3,
      readsMerged = nth_value vs 4,
      sectorsRead = nth_value vs 5,
      msReading = nth_value vs 6,
      writesCompleted = nth_value vs 7,
      writesMerged = nth_value vs 8,
      sectorsWritten = nth_value vs 9,
      msWriting = nth_value vs 10,
      iosPending = nth_value vs 11,
      msIo = nth_value vs 12,
      msWeightedIo = nth_value vs 13\<rparr>"

text \<open>
  The object \<^verbatim>\<open>data\<close>: its own properties, and the record that an assignment to the
  key \<^verbatim>\<open>__proto__\<close> has made its prototype, if any. Such an assignment runs the setter
  inherited from \<^verbatim>\<open>Object.prototype\<close> and creates no own property.
\<close>

record dataobj =
  own_props :: "string \<rightharpoonup> devstats"
  proto_obj :: "devstats option"

definition empty_data :: dataobj where
  "empty_data = \<lparr>own_props = Map.empty, proto_obj = None\<rparr>"

definition set_prop :: "dataobj \<Rightarrow> string \<Rightarrow> devstats \<Rightarrow> dataobj" where
  "set_prop data k r =
     (if k = ''__proto__'' then data\<lparr>proto_obj := Some r\<rparr>
      else data\<lparr>own_props := (own_props data)(k \<mapsto> r)\<rparr>)"

text \<open>The key \<^verbatim>\<open>values[2]\<close>: a missing third value is the key \<^verbatim>\<open>"undefined"\<close>.\<close>

definition device_key :: "string list \<Rightarrow> string" where
  "device_key vs = (if 2 < length vs then vs ! 2 else ''undefined'')"

definition parse_line :: "dataobj \<Rightarrow> string \<Rightarrow> dataobj" where
  "parse_line data line =
     (let values = split_ws (trim line)
      in set_prop data (device_key values) (stats_of values))"

definition parseContent :: "string \<Rightarrow> dataobj" where
  "parseContent diskstats = foldl parse_line empty_data (split_nl (trim diskstats))"

datatype error = IOError | TypeError

text \<open>The file read gives the text of the file, or throws (\<open>None\<close>).\<close>

definition parseProcDiskstats :: "string option \<Rightarrow> error + dataobj" where
  "parseProcDiskstats file =
     (case file of None \<Rightarrow> Inl IOError | Some diskstats \<Rightarrow> Inr (parseContent diskstats))"

definition raw :: "string option \<Rightarrow> error + dataobj" where
  "raw file = parseProcDiskstats file"

section \<open>Reading a device's counter\<close>

text \<open>
  \<^verbatim>\<open>data[device]\<close> looks at the own properties, then at the prototype chain: the
  record installed by a \<^verbatim>\<open>__proto__\<close> line if there is one, then
  \<^verbatim>\<open>Object.prototype\<close>.
\<close>

datatype lookup = NoProp | Stats devstats | FieldOfProto prim | Inherited string

definition devstats_fields :: "devstats \<Rightarrow> (string \<times> prim) list" where
  "devstats_fields r =
     [(''deviceNumber'', deviceNumber r), (''deviceNumberMinor'', deviceNumberMinor r),
      (''readsCompleted'', readsCompleted r), (''readsMerged'', readsMerged r),
      (''sectorsRead'', sectorsRead r), (''msReading'', msReading r),
      (''writesCompleted'', writesCompleted r), (''writesMerged'', writesMerged r),
      (''sectorsWritten'', sectorsWritten r), (''msWriting'', msWriting r),
      (''iosPending'', iosPending r), (''msIo'', msIo r),
      (''msWeightedIo'', msWeightedIo r)]"

definition inherited_prop :: "string \<Rightarrow> lookup" where
  "inherited_prop k = (if k \<in> set object_prototype_names then Inherited k else NoProp)"

definition get_prop :: "dataobj \<Rightarrow> string \<Rightarrow> lookup" where
  "get_prop data k =
     (case own_props data k of
        Some r \<Rightarrow> Stats r
      | None \<Rightarrow>
          (case proto_obj data of
             None \<Rightarrow> inherited_prop k
           | Some p \<Rightarrow>
               if k = ''__proto__'' then Stats p
               else (case map_of (devstats_fields p) k of
                       Some v \<Rightarrow> FieldOfProto v
                     | None \<Rightarrow> inherited_prop k)))"

text \<open>
  \<^verbatim>\<open>data[device].sectorsRead\<close>: reading a property of \<^verbatim>\<open>undefined\<close> throws a
  TypeError; a string or an inherited member has no such property.
\<close>

definition read_counter :: "(devstats \<Rightarrow> prim) \<Rightarrow> lookup \<Rightarrow> error + prim" where
  "read_counter counter l =
     (case l of
        NoProp \<Rightarrow> Inl TypeError
      | Stats r \<Rightarrow> Inr (counter r)
      | FieldOfProto v \<Rightarrow> if v = JUndefined \<or> v = JNull then Inl TypeError else Inr JUndefined
      | Inherited k \<Rightarrow> Inr JUndefined)"

section \<open>Sampling: \<^verbatim>\<open>usageRead\<close> and \<^verbatim>\<open>usageWrite\<close>\<close>

text \<open>
  The options object is a plain object whose properties hold primitive values. The
  four assignments at the head of each function write into that same object.
\<close>

type_synonym options = "string \<rightharpoonup> prim"

definition get_opt :: "options \<Rightarrow> string \<Rightarrow> prim" where
  "get_opt opts k = (case opts k of None \<Rightarrow> JUndefined | Some v \<Rightarrow> v)"

definition js_or :: "prim \<Rightarrow> prim \<Rightarrow> prim" where
  "js_or a b = (if truthy_prim a then a else b)"

definition assign_default :: "options \<Rightarrow> string \<Rightarrow> prim \<Rightarrow> options" where
  "assign_default opts k d = opts(k \<mapsto> js_or (get_opt opts k) d)"

definition apply_defaults :: "options \<Rightarrow> options" where
  "apply_defaults opts =
     (let o1 = assign_default opts ''sectorSizeBytes'' (JNum (Fin 512));
          o2 = assign_default o1 ''sampleMs'' (JNum (Fin 1000));
          o3 = assign_default o2 ''device'' (JStr ''sda'');
          o4 = assign_default o3 ''units'' (JStr ''bytes'')
      in o4)"

text \<open>
  What one call meets outside the module: the file at the first and at the second
  read, and the pair (seconds, nanoseconds) that \<^verbatim>\<open>process.hrtime(time)\<close> returns after
  the delay.
\<close>

record env =
  file0 :: "string option"
  file1 :: "string option"
  hr_diff :: "nat \<times> nat"

definition diffSeconds :: "nat \<times> nat \<Rightarrow> jsnum" where
  "diffSeconds diff = Fin (of_nat (fst diff) + of_nat (snd diff) * (1 / 1000000000))"

text \<open>Lines 117 and 118: the value handed to the unit conversion.\<close>

definition raw_rate :: "runtime \<Rightarrow> prim \<Rightarrow> prim \<Rightarrow> prim \<Rightarrow> jsnum \<Rightarrow> jsnum" where
  "raw_rate rt delta0 delta1 sectorSizeBytes seconds =
     (let totalBytes =
            js_mul (js_sub (to_number rt delta1) (to_number rt delta0))
                   (to_number rt sectorSizeBytes);
          totalBytesPerSecond = js_div totalBytes (js_mul seconds seconds)
      in totalBytesPerSecond)"

text \<open>
  The outcome of a call. An exception before the promise is created is thrown to the
  caller. The executor of the promise is an \<^verbatim>\<open>async\<close> function: an exception in it
  after the delay rejects the executor's own promise, which nobody holds, and
  \<^verbatim>\<open>resolve\<close> is never called, so the promise the caller holds never settles
  (\<open>Unsettled\<close>, with the exception that the runtime reports as an unhandled
  rejection). The code has no \<^verbatim>\<open>reject\<close>. The options object is not touched by
  anyone else during the delay.

  A result also records the options object after the call, the argument of
  \<^verbatim>\<open>delay\<close> once it has been called, the argument of \<^verbatim>\<open>_bytesTo\<close> once it has been
  called, and the console lines.
\<close>

datatype outcome = Thrown error | Resolved jsval | Unsettled error

record result =
  opts_after :: options
  delay_arg :: "prim option"
  rate_arg :: "jsnum option"
  console :: "string list"
  outcome :: outcome

definition usage :: "(devstats \<Rightarrow> prim) \<Rightarrow> runtime \<Rightarrow> env \<Rightarrow> options \<Rightarrow> result" where
  "usage counter rt e opts0 =
     (let opts = apply_defaults opts0;
          device = to_property_key rt (get_opt opts ''device'');
          early = \<lparr>opts_after = opts, delay_arg = None, rate_arg = None, console = [],
                   outcome = Thrown IOError\<rparr>
      in case parseProcDiskstats (file0 e) of
           Inl err \<Rightarrow> early\<lparr>outcome := Thrown err\<rparr>
         | Inr data0 \<Rightarrow>
            (case read_counter counter (get_prop data0 device) of
               Inl err \<Rightarrow> early\<lparr>outcome := Thrown err\<rparr>
             | Inr delta0 \<Rightarrow>
                (let sampleMs = get_opt opts ''sampleMs'';
                     late = early\<lparr>delay_arg := Some sampleMs\<rparr>
                 in case parseProcDiskstats (file1 e) of
                      Inl err \<Rightarrow> late\<lparr>outcome := Unsettled err\<rparr>
                    | Inr data1 \<Rightarrow>
                       (case read_counter counter (get_prop data1 device) of
                          Inl err \<Rightarrow> late\<lparr>outcome := Unsettled err\<rparr>
                        | Inr delta1 \<Rightarrow>
                           (let totalBytesPerSecond =
                                  raw_rate rt delta0 delta1 (get_opt opts ''sectorSizeBytes'')
                                    (diffSeconds (hr_diff e));
                                converted =
                                  bytesTo totalBytesPerSecond
                                    (to_property_key rt (get_opt opts ''units''))
                            in late\<lparr>rate_arg := Some totalBytesPerSecond,
                                    console := snd converted,
                                    outcome := Resolved (fst converted)\<rparr>)))))"

definition usageRead :: "runtime \<Rightarrow> env \<Rightarrow> options \<Rightarrow> result" where
  "usageRead = usage sectorsRead"

definition usageWrite :: "runtime \<Rightarrow> env \<Rightarrow> options \<Rightarrow> result" where
  "usageWrite = usage sectorsWritten"

section \<open>A sample runtime\<close>

text \<open>
  The closed examples below need a runtime. This one agrees with the language on
  strings of decimal digits and on natural numbers below \<open>10\<^sup>2\<^sup>1\<close>; the examples use
  it on nothing else.
\<close>

definition is_digit :: "char \<Rightarrow> bool" where
  "is_digit c = (c \<in> set ''0123456789'')"

definition decimal_value :: "string \<Rightarrow> nat" where
  "decimal_value s = foldl (\<lambda>n c. 10 * n + (of_char c - 48)) 0 s"

fun decimal_digits :: "nat \<Rightarrow> string" where
  "decimal_digits n =
     (if n < 10 then [char_of (48 + n)]
      else decimal_digits (n div 10) @ [char_of (48 + n mod 10)])"

definition digits_runtime :: runtime where
  "digits_runtime =
     \<lparr>StringToNumber = (\<lambda>s. if list_all is_digit s then Fin (of_nat (decimal_value s)) else NaN),
      NumberToString = (\<lambda>n. case n of
                               NaN \<Rightarrow> ''NaN''
                             | PInf \<Rightarrow> ''Infinity''
                             | NInf \<Rightarrow> ''-Infinity''
                             | Fin q \<Rightarrow> decimal_digits (nat \<lfloor>q\<rfloor>))\<rparr>"

section \<open>Vocabulary of the statements\<close>

text \<open>The four unit names that the literal of \<^verbatim>\<open>_bytesTo\<close> defines.\<close>

definition recognized_units :: "string list" where
  "recognized_units = [''bytes'', ''KiB'', ''MiB'', ''GiB'']"

text \<open>The options as the body of a call reads them, after the defaults are assigned.\<close>

definition device_name :: "runtime \<Rightarrow> options \<Rightarrow> string" where
  "device_name rt opts = to_property_key rt (get_opt (apply_defaults opts) ''device'')"

definition units_name :: "runtime \<Rightarrow> options \<Rightarrow> string" where
  "units_name rt opts = to_property_key rt (get_opt (apply_defaults opts) ''units'')"

definition sector_size :: "runtime \<Rightarrow> options \<Rightarrow> jsnum" where
  "sector_size rt opts = to_number rt (get_opt (apply_defaults opts) ''sectorSizeBytes'')"

text \<open>
  The entry of a device in the snapshot read from a file, and the case that the read
  \<^verbatim>\<open>data[device]\<close> finds nothing at all.
\<close>

definition snapshot :: "string option \<Rightarrow> string \<Rightarrow> devstats option" where
  "snapshot file dev =
     (case file of None \<Rightarrow> None | Some diskstats \<Rightarrow> own_props (parseContent diskstats) dev)"


text \<open>The two public sampling functions, each with the counter it reads.\<close>

definition samplers :: "((runtime \<Rightarrow> env \<Rightarrow> options \<Rightarrow> result) \<times> (devstats \<Rightarrow> prim)) list" where
  "samplers = [(usageRead, sectorsRead), (usageWrite, sectorsWritten)]"

text \<open>The four options with the defaults that lines 100 to 103 assign.\<close>

definition option_defaults :: "(string \<times> prim) list" where
  "option_defaults =
     [(''sectorSizeBytes'', JNum (Fin 512)), (''sampleMs'', JNum (Fin 1000)),
      (''device'', JStr ''sda''), (''units'', JStr ''bytes'')]"


text \<open>
  The white-space-separated fields of a line, said without the parser: the maximal
  runs of characters that are not white space.
\<close>

function fields_of :: "string \<Rightarrow> string list" where
  "fields_of s =
     (let t = dropWhile is_space s
      in if t = [] then []
         else takeWhile (\<lambda>c. \<not> is_space c) t # fields_of (dropWhile (\<lambda>c. \<not> is_space c) t))"
  by pat_completeness auto
termination
proof (relation "measure length")
  show "wf (measure length)" by simp
next
  fix s t :: string
  assume t: "t = dropWhile is_space s" and ne: "t \<noteq> []"
  from ne have "\<not> is_space (hd t)"
    unfolding t by (rule hd_dropWhile)
  with ne have "dropWhile (\<lambda>c. \<not> is_space c) t = dropWhile (\<lambda>c. \<not> is_space c) (tl t)"
    by (cases t) simp_all
  moreover have "length (dropWhile (\<lambda>c. \<not> is_space c) (tl t)) \<le> length (tl t)"
    by (rule length_dropWhile_le)
  ultimately have "length (dropWhile (\<lambda>c. \<not> is_space c) t) \<le> length (tl t)"
    by (simp only:)
  also from ne have "\<dots> < length t" by (cases t) simp_all
  also have "\<dots> \<le> length s" unfolding t by (rule length_dropWhile_le)
  finally show "(dropWhile (\<lambda>c. \<not> is_space c) t, s) \<in> measure length" by simp
qed

declare fields_of.simps [simp del]

text \<open>The text of a file whose lines are \<open>ls\<close>: the lines with a line feed between them.\<close>

fun join_lines :: "string list \<Rightarrow> string" where
  "join_lines [] = []"
| "join_lines [l] = l"
| "join_lines (l # ls) = l @ [CHR 0x0A] @ join_lines ls"

text \<open>The two halves of \<^verbatim>\<open>trim\<close>.\<close>

definition lstrip :: "string \<Rightarrow> string" where
  "lstrip s = dropWhile is_space s"

definition rstrip :: "string \<Rightarrow> string" where
  "rstrip s = rev (dropWhile is_space (rev s))"

text \<open>The body of the loop of lines 54 to 71, on the values of a line.\<close>

definition store_values :: "dataobj \<Rightarrow> string list \<Rightarrow> dataobj" where
  "store_values data vs = set_prop data (device_key vs) (stats_of vs)"

text \<open>The key and the record that each list of values stores.\<close>

definition entries :: "string list list \<Rightarrow> (string \<times> devstats) list" where
  "entries vss = map (\<lambda>vs. (device_key vs, stats_of vs)) vss"

section \<open>Example inputs\<close>

text \<open>
  Two reads of the statistics file two seconds apart: \<open>sda\<close> has read 2000 sectors
  and written none in between, and \<open>sdb\<close> has gone by the second read.
\<close>

definition line_sda :: string where
  "line_sda = ''   8       0 sda 100 20 1000 40 50 60 7000 80 0 100 110''"

definition line_sdb :: string where
  "line_sdb = ''   8      16 sdb 5 6 9007199254740993 8 9 10 11 12 13 14 15''"

definition stats_t0 :: string where
  "stats_t0 = line_sda @ [CHR 0x0A] @ line_sdb @ [CHR 0x0A]"

definition stats_t1 :: string where
  "stats_t1 =
     ''   8       0 sda 130 20 3000 40 50 60 7000 80 0 100 110'' @ [CHR 0x0A]"

definition sda_t0 :: devstats where
  "sda_t0 =
     \<lparr>deviceNumber = JStr ''8'', deviceNumberMinor = JStr ''0'',
      readsCompleted = JStr ''100'', readsMerged = JStr ''20'',
      sectorsRead = JStr ''1000'', msReading = JStr ''40'',
      writesCompleted = JStr ''50'', writesMerged = JStr ''60'',
      sectorsWritten = JStr ''7000'', msWriting = JStr ''80'',
      iosPending = JStr ''0'', msIo = JStr ''100'', msWeightedIo = JStr ''110''\<rparr>"

definition sdb_t0 :: devstats where
  "sdb_t0 =
     \<lparr>deviceNumber = JStr ''8'', deviceNumberMinor = JStr ''16'',
      readsCompleted = JStr ''5'', readsMerged = JStr ''6'',
      sectorsRead = JStr ''9007199254740993'', msReading = JStr ''8'',
      writesCompleted = JStr ''9'', writesMerged = JStr ''10'',
      sectorsWritten = JStr ''11'', msWriting = JStr ''12'',
      iosPending = JStr ''13'', msIo = JStr ''14'', msWeightedIo = JStr ''15''\<rparr>"

definition sda_t1 :: devstats where
  "sda_t1 = sda_t0\<lparr>readsCompleted := JStr ''130'', sectorsRead := JStr ''3000''\<rparr>"

definition env_two :: env where
  "env_two = \<lparr>file0 = Some stats_t0, file1 = Some stats_t1, hr_diff = (2, 0)\<rparr>"


definition proto_line :: string where
  "proto_line = ''   8       0 __proto__ 130 20 3000 40 50 60 7000 80 0 100 110''"


definition opts_sdb :: options where
  "opts_sdb = [''device'' \<mapsto> JStr ''sdb'']"

definition opts_TiB :: options where
  "opts_TiB = [''units'' \<mapsto> JStr ''TiB'']"

section \<open>Unit conversion: results\<close>

lemma unit_table_simp:
  "unit_table (Fin v) =
     [(''bytes'', Fin v), (''KiB'', Fin (v / 1024)), (''MiB'', Fin (v / 1024 / 1048576)),
      (''GiB'', Fin (v / 1024 / 1048576 / 1073741824))]"
  by (simp add: unit_table_def)

lemma map_of_unit_table_dom:
  "map_of (unit_table v) u = None \<longleftrightarrow> u \<notin> set recognized_units"
  by (auto simp: unit_table_def Let_def recognized_units_def)

lemma bytesTo_unknown:
  assumes "u \<notin> set recognized_units" "u \<notin> set object_prototype_names"
  shows "bytesTo v u = (Prim JUndefined, [unknown_units_message u])"
proof -
  from assms(1) have "map_of (unit_table v) u = None"
    by (simp add: map_of_unit_table_dom)
  with assms(2) have "literal_get (unit_table v) u = Prim JUndefined"
    by (simp add: literal_get_def)
  then show ?thesis by (simp add: bytesTo_def)
qed

lemma bytesTo_falsy:
  assumes "\<not> truthy (literal_get (unit_table v) u)"
  shows "bytesTo v u = (Prim JUndefined, [unknown_units_message u])"
  using assms by (simp add: bytesTo_def)

lemma unit_table_zero:
  assumes "u \<in> set recognized_units"
  shows "literal_get (unit_table (Fin 0)) u = Prim (JNum (Fin 0))"
  using assms by (auto simp: recognized_units_def unit_table_simp literal_get_def)

text \<open>
  C2 (the code at the failing input). Converting 1048576 to MiB returns 1/1024
  (0.0009765625) and not 1: the MiB entry divides the value that the KiB entry has
  already divided by 1024. The KiB entry itself is 1024.
\<close>

theorem bytesTo_MiB_compounds:
  "bytesTo (Fin 1048576) ''MiB'' = (Prim (JNum (Fin (1 / 1024))), []) \<and>
   bytesTo (Fin 1048576) ''KiB'' = (Prim (JNum (Fin 1024)), [])"
  by (simp add: bytesTo_def unit_table_simp literal_get_def)

section \<open>Sampling: the shape of a call\<close>

lemma sampler_cases:
  assumes "(sample, counter) \<in> set samplers"
  shows "sample = usage counter"
  using assms by (auto simp: samplers_def usageRead_def usageWrite_def)

lemma snapshot_SomeD:
  assumes "snapshot src dev = Some r"
  obtains diskstats where "src = Some diskstats" "own_props (parseContent diskstats) dev = Some r"
  using assms by (cases src) (simp_all add: snapshot_def)


lemma read_counter_own:
  assumes "own_props data dev = Some r"
  shows "read_counter counter (get_prop data dev) = Inr (counter r)"
  using assms by (simp add: get_prop_def read_counter_def)

text \<open>A device with an entry in both snapshots: the call resolves.\<close>

lemma usage_resolved:
  assumes "snapshot (file0 e) (device_name rt opts) = Some r0"
    and "snapshot (file1 e) (device_name rt opts) = Some r1"
  shows "usage counter rt e opts =
     (let rate = raw_rate rt (counter r0) (counter r1)
                   (get_opt (apply_defaults opts) ''sectorSizeBytes'') (diffSeconds (hr_diff e));
          converted = bytesTo rate (units_name rt opts)
      in \<lparr>opts_after = apply_defaults opts,
          delay_arg = Some (get_opt (apply_defaults opts) ''sampleMs''),
          rate_arg = Some rate, console = snd converted, outcome = Resolved (fst converted)\<rparr>)"
proof -
  from assms(1) obtain c0 where c0: "file0 e = Some c0"
    "own_props (parseContent c0) (device_name rt opts) = Some r0"
    by (rule snapshot_SomeD)
  from assms(2) obtain c1 where c1: "file1 e = Some c1"
    "own_props (parseContent c1) (device_name rt opts) = Some r1"
    by (rule snapshot_SomeD)
  have k0: "read_counter counter (get_prop (parseContent c0) (device_name rt opts)) = Inr (counter r0)"
    using c0(2) by (rule read_counter_own)
  have k1: "read_counter counter (get_prop (parseContent c1) (device_name rt opts)) = Inr (counter r1)"
    using c1(2) by (rule read_counter_own)
  show ?thesis
    using k0 k1
    by (simp add: usage_def Let_def parseProcDiskstats_def c0(1) c1(1)
        device_name_def units_name_def)
qed

lemma usage_opts_after: "opts_after (usage counter rt e opts) = apply_defaults opts"
  by (simp add: usage_def Let_def split: sum.splits)



lemma usage_cong_defaults:
  assumes "apply_defaults opts = apply_defaults opts'"
  shows "usage counter rt e opts = usage counter rt e opts'"
  using assms by (simp add: usage_def)

section \<open>The defaults\<close>

lemma apply_defaults_eq:
  "apply_defaults opts =
     opts(''sectorSizeBytes'' \<mapsto> js_or (get_opt opts ''sectorSizeBytes'') (JNum (Fin 512)),
          ''sampleMs'' \<mapsto> js_or (get_opt opts ''sampleMs'') (JNum (Fin 1000)),
          ''device'' \<mapsto> js_or (get_opt opts ''device'') (JStr ''sda''),
          ''units'' \<mapsto> js_or (get_opt opts ''units'') (JStr ''bytes''))"
  by (simp add: apply_defaults_def assign_default_def get_opt_def)

lemma apply_defaults_falsy:
  assumes "\<not> truthy_prim v" "(k, d) \<in> set option_defaults"
  shows "apply_defaults (opts(k \<mapsto> v)) = apply_defaults (opts(k := None))"
    and "apply_defaults (opts(k \<mapsto> v)) = apply_defaults (opts(k \<mapsto> d))"
  using assms
  by (auto simp: apply_defaults_eq option_defaults_def get_opt_def js_or_def fun_upd_twist)

lemma default_names:
  "device_name rt Map.empty = ''sda''" "units_name rt Map.empty = ''bytes''"
  "sector_size rt Map.empty = Fin 512"
  by (simp_all add: device_name_def units_name_def sector_size_def apply_defaults_def
      assign_default_def get_opt_def js_or_def)

section \<open>The example inputs, evaluated\<close>

lemma snap0_sda: "snapshot (file0 env_two) ''sda'' = Some sda_t0"
  by code_simp

lemma snap1_sda: "snapshot (file1 env_two) ''sda'' = Some sda_t1"
  by code_simp




lemma example_counters:
  "sectorsRead sda_t0 = JStr ''1000''" "sectorsRead sda_t1 = JStr ''3000''"
  "sectorsWritten sda_t0 = JStr ''7000''" "sectorsWritten sda_t1 = JStr ''7000''"
  by (simp_all add: sda_t0_def sda_t1_def)

lemma example_numbers:
  "StringToNumber digits_runtime ''1000'' = Fin 1000"
  "StringToNumber digits_runtime ''3000'' = Fin 3000"
  "StringToNumber digits_runtime ''7000'' = Fin 7000"
  by (simp_all add: digits_runtime_def is_digit_def decimal_value_def)

lemma example_time: "diffSeconds (hr_diff env_two) = Fin 2"
  by (simp add: diffSeconds_def env_two_def)

section \<open>The rate\<close>

lemma raw_rate_fin:
  assumes "to_number rt d0 = Fin a0" "to_number rt d1 = Fin a1" "to_number rt sz = Fin s" "0 < t"
  shows "raw_rate rt d0 d1 sz (Fin t) = Fin ((a1 - a0) * s / (t * t))"
  using assms by (simp add: raw_rate_def)





section \<open>The falsy guard of the conversion\<close>

text \<open>
  C9. For each of the four recognized units, when the converted number is 0 the guard
  \<^verbatim>\<open>converted || console.log(...)\<close> takes the logging branch: \<open>bytesTo\<close> writes the
  unknown-units message and returns \<^verbatim>\<open>undefined\<close>, not 0. So \<open>usageRead\<close> and
  \<open>usageWrite\<close> resolve with \<^verbatim>\<open>undefined\<close> on an idle device, whose counter is the
  same number in both snapshots.
\<close>

theorem zero_rate_resolves_undefined:
  assumes "u \<in> set recognized_units"
  shows "(\<forall>v. literal_get (unit_table v) u = Prim (JNum (Fin 0)) \<longrightarrow>
            bytesTo v u = (Prim JUndefined, [unknown_units_message u])) \<and>
         (\<forall>sample counter rt e opts r0 r1 c s t.
            (sample, counter) \<in> set samplers \<and> units_name rt opts = u \<and>
            snapshot (file0 e) (device_name rt opts) = Some r0 \<and>
            snapshot (file1 e) (device_name rt opts) = Some r1 \<and>
            to_number rt (counter r0) = Fin c \<and> to_number rt (counter r1) = Fin c \<and>
            sector_size rt opts = Fin s \<and> diffSeconds (hr_diff e) = Fin t \<and> 0 < t \<longrightarrow>
            outcome (sample rt e opts) = Resolved (Prim JUndefined) \<and>
            console (sample rt e opts) = [unknown_units_message u])"
proof (intro conjI allI impI)
  fix v
  assume "literal_get (unit_table v) u = Prim (JNum (Fin 0))"
  then have "\<not> truthy (literal_get (unit_table v) u)" by simp
  then show "bytesTo v u = (Prim JUndefined, [unknown_units_message u])"
    by (rule bytesTo_falsy)
next
  fix sample counter rt and e :: env and opts r0 r1 c s t
  assume h: "(sample, counter) \<in> set samplers \<and> units_name rt opts = u \<and>
            snapshot (file0 e) (device_name rt opts) = Some r0 \<and>
            snapshot (file1 e) (device_name rt opts) = Some r1 \<and>
            to_number rt (counter r0) = Fin c \<and> to_number rt (counter r1) = Fin c \<and>
            sector_size rt opts = Fin s \<and> diffSeconds (hr_diff e) = Fin t \<and> 0 < t"
  then have sample: "sample = usage counter" by (simp add: sampler_cases)
  from h have "raw_rate rt (counter r0) (counter r1)
                 (get_opt (apply_defaults opts) ''sectorSizeBytes'') (Fin t) = Fin 0"
    by (simp add: raw_rate_def sector_size_def)
  with h have res: "usage counter rt e opts =
      \<lparr>opts_after = apply_defaults opts,
       delay_arg = Some (get_opt (apply_defaults opts) ''sampleMs''),
       rate_arg = Some (Fin 0), console = snd (bytesTo (Fin 0) u),
       outcome = Resolved (fst (bytesTo (Fin 0) u))\<rparr>"
    by (simp add: usage_resolved [of e rt opts r0 r1] Let_def)
  have "\<not> truthy (literal_get (unit_table (Fin 0)) u)"
    using assms by (simp add: unit_table_zero)
  then have "bytesTo (Fin 0) u = (Prim JUndefined, [unknown_units_message u])"
    by (rule bytesTo_falsy)
  with res show "outcome (sample rt e opts) = Resolved (Prim JUndefined)"
    and "console (sample rt e opts) = [unknown_units_message u]"
    by (simp_all add: sample)
qed

theorem zero_rate_resolves_undefined_witness:
  "bytesTo (Fin 0) ''bytes'' = (Prim JUndefined, [unknown_units_message ''bytes'']) \<and>
   outcome (usageWrite digits_runtime env_two Map.empty) = Resolved (Prim JUndefined)"
proof -
  have u: "''bytes'' \<in> set recognized_units"
    by (simp add: recognized_units_def)
  note z = zero_rate_resolves_undefined [OF u]
  have "literal_get (unit_table (Fin 0)) ''bytes'' = Prim (JNum (Fin 0))"
    by (simp add: unit_table_simp literal_get_def)
  with z have a: "bytesTo (Fin 0) ''bytes'' = (Prim JUndefined, [unknown_units_message ''bytes''])"
    by blast
  have w: "(usageWrite, sectorsWritten) \<in> set samplers"
    by (simp add: samplers_def)
  have s0: "snapshot (file0 env_two) (device_name digits_runtime Map.empty) = Some sda_t0"
    and s1: "snapshot (file1 env_two) (device_name digits_runtime Map.empty) = Some sda_t1"
    by (simp_all only: default_names snap0_sda snap1_sda)
  have n: "to_number digits_runtime (sectorsWritten sda_t0) = Fin 7000"
    "to_number digits_runtime (sectorsWritten sda_t1) = Fin 7000"
    by (simp_all add: example_counters example_numbers)
  have t: "(0::rat) < 2" by simp
  from z w default_names(2) s0 s1 n default_names(3) example_time t
  have "outcome (usageWrite digits_runtime env_two Map.empty) = Resolved (Prim JUndefined)"
    by blast
  with a show ?thesis by simp
qed

section \<open>Unrecognized units\<close>

lemma TiB_names:
  "device_name rt opts_TiB = ''sda''" "units_name rt opts_TiB = ''TiB''"
  by (simp_all add: opts_TiB_def device_name_def units_name_def apply_defaults_def
      assign_default_def get_opt_def js_or_def)

lemma TiB_unknown:
  "''TiB'' \<notin> set recognized_units" "''TiB'' \<notin> set object_prototype_names"
  by (simp_all add: recognized_units_def object_prototype_names_def)

text \<open>
  C3, as the code has it. For a unit string that is neither one of \<open>bytes\<close>,
  \<open>KiB\<close>, \<open>MiB\<close>, \<open>GiB\<close> nor the name of a member of \<^verbatim>\<open>Object.prototype\<close> (so
  for \<open>TiB\<close>), the unit conversion does not fail: it writes the unknown-units message
  to the console and returns \<^verbatim>\<open>undefined\<close>, for every input value. \<open>usageRead\<close>
  and \<open>usageWrite\<close> called with that unit on a device that has an entry in both
  snapshots then resolve with \<^verbatim>\<open>undefined\<close>.
\<close>

theorem unknown_unit_returns_undefined:
  assumes "u \<notin> set recognized_units" "u \<notin> set object_prototype_names"
  shows "bytesTo v u = (Prim JUndefined, [unknown_units_message u]) \<and>
         (\<forall>sample counter rt e opts r0 r1.
            (sample, counter) \<in> set samplers \<and> units_name rt opts = u \<and>
            snapshot (file0 e) (device_name rt opts) = Some r0 \<and>
            snapshot (file1 e) (device_name rt opts) = Some r1 \<longrightarrow>
            outcome (sample rt e opts) = Resolved (Prim JUndefined) \<and>
            console (sample rt e opts) = [unknown_units_message u])"
proof (intro conjI allI impI)
  show "bytesTo v u = (Prim JUndefined, [unknown_units_message u])"
    using assms by (rule bytesTo_unknown)
next
  fix sample counter rt and e :: env and opts r0 r1
  assume h: "(sample, counter) \<in> set samplers \<and> units_name rt opts = u \<and>
            snapshot (file0 e) (device_name rt opts) = Some r0 \<and>
            snapshot (file1 e) (device_name rt opts) = Some r1"
  then have sample: "sample = usage counter" by (simp add: sampler_cases)
  have b: "bytesTo x u = (Prim JUndefined, [unknown_units_message u])" for x
    using assms by (rule bytesTo_unknown)
  from h show "outcome (sample rt e opts) = Resolved (Prim JUndefined)"
    and "console (sample rt e opts) = [unknown_units_message u]"
    by (simp_all add: sample usage_resolved [of e rt opts r0 r1] Let_def b)
qed

theorem unknown_unit_returns_undefined_witness:
  "bytesTo (Fin 1048576) ''TiB'' = (Prim JUndefined, [unknown_units_message ''TiB'']) \<and>
   outcome (usageWrite digits_runtime env_two opts_TiB) = Resolved (Prim JUndefined)"
proof -
  note z = unknown_unit_returns_undefined [OF TiB_unknown]
  have w: "(usageWrite, sectorsWritten) \<in> set samplers"
    by (simp add: samplers_def)
  have s0: "snapshot (file0 env_two) (device_name digits_runtime opts_TiB) = Some sda_t0"
    and s1: "snapshot (file1 env_two) (device_name digits_runtime opts_TiB) = Some sda_t1"
    by (simp_all only: TiB_names snap0_sda snap1_sda)
  from z w TiB_names(2) s0 s1
  have "outcome (usageWrite digits_runtime env_two opts_TiB) = Resolved (Prim JUndefined)"
    by blast
  with z show ?thesis by simp
qed

text \<open>
  C3 as stated does not hold: with the unit \<open>TiB\<close> the call does not fail with an
  error, it resolves (with \<^verbatim>\<open>undefined\<close>, after one console line).
\<close>

theorem unknown_unit_does_not_fail:
  "outcome (usageRead digits_runtime env_two opts_TiB) = Resolved (Prim JUndefined) \<and>
   console (usageRead digits_runtime env_two opts_TiB) = [unknown_units_message ''TiB'']"
proof -
  have b: "bytesTo x ''TiB'' = (Prim JUndefined, [unknown_units_message ''TiB''])" for x
    using TiB_unknown by (rule bytesTo_unknown)
  have s0: "snapshot (file0 env_two) (device_name digits_runtime opts_TiB) = Some sda_t0"
    and s1: "snapshot (file1 env_two) (device_name digits_runtime opts_TiB) = Some sda_t1"
    by (simp_all only: TiB_names snap0_sda snap1_sda)
  show ?thesis
    by (simp add: usageRead_def usage_resolved [OF s0 s1] Let_def TiB_names b)
qed

section \<open>Falsy options\<close>

text \<open>
  C10. An option given with a falsy value (0, the empty string, \<^verbatim>\<open>null\<close>, and as
  well \<^verbatim>\<open>false\<close>, \<^verbatim>\<open>NaN\<close> and \<^verbatim>\<open>undefined\<close>) cannot be told from an option that
  is not set, and is replaced by the default: for each of the four options \<open>k\<close> with
  default \<open>d\<close>, the whole result of \<open>usageRead\<close> and of \<open>usageWrite\<close> (outcome,
  argument of the delay, console, options object afterwards) is the same with
  \<open>k\<close> falsy, with \<open>k\<close> unset and with \<open>k = d\<close>, and the options object holds
  \<open>d\<close> afterwards.
\<close>

theorem falsy_option_is_default:
  assumes "(sample, counter) \<in> set samplers"
    and "\<not> truthy_prim v"
    and "(k, d) \<in> set option_defaults"
  shows "sample rt e (opts(k \<mapsto> v)) = sample rt e (opts(k := None)) \<and>
         sample rt e (opts(k \<mapsto> v)) = sample rt e (opts(k \<mapsto> d)) \<and>
         opts_after (sample rt e (opts(k \<mapsto> v))) k = Some d"
proof -
  have sample: "sample = usage counter"
    using assms(1) by (rule sampler_cases)
  have "usage counter rt e (opts(k \<mapsto> v)) = usage counter rt e (opts(k := None))"
    using apply_defaults_falsy(1) [OF assms(2,3)] by (rule usage_cong_defaults)
  moreover have "usage counter rt e (opts(k \<mapsto> v)) = usage counter rt e (opts(k \<mapsto> d))"
    using apply_defaults_falsy(2) [OF assms(2,3)] by (rule usage_cong_defaults)
  moreover have "opts_after (usage counter rt e (opts(k \<mapsto> v))) k = Some d"
    using assms(2,3)
    by (auto simp: usage_opts_after apply_defaults_eq option_defaults_def get_opt_def js_or_def)
  ultimately show ?thesis by (simp add: sample)
qed

theorem falsy_option_is_default_witness:
  "usageRead digits_runtime env_two [''sampleMs'' \<mapsto> JNum (Fin 0)] =
     usageRead digits_runtime env_two [''sampleMs'' \<mapsto> JNum (Fin 1000)] \<and>
   usageRead digits_runtime env_two [''sectorSizeBytes'' \<mapsto> JNum (Fin 0)] =
     usageRead digits_runtime env_two [''sectorSizeBytes'' \<mapsto> JNum (Fin 512)] \<and>
   usageWrite digits_runtime env_two [''device'' \<mapsto> JStr ''''] =
     usageWrite digits_runtime env_two [''device'' \<mapsto> JStr ''sda''] \<and>
   usageWrite digits_runtime env_two [''units'' \<mapsto> JStr ''''] =
     usageWrite digits_runtime env_two [''units'' \<mapsto> JStr ''bytes''] \<and>
   usageWrite digits_runtime env_two [''units'' \<mapsto> JNull] =
     usageWrite digits_runtime env_two Map.empty"
proof -
  have r: "(usageRead, sectorsRead) \<in> set samplers"
    and w: "(usageWrite, sectorsWritten) \<in> set samplers"
    by (simp_all add: samplers_def)
  have f: "\<not> truthy_prim (JNum (Fin 0))" "\<not> truthy_prim (JStr '''')" "\<not> truthy_prim JNull"
    by simp_all
  have d: "(''sampleMs'', JNum (Fin 1000)) \<in> set option_defaults"
    "(''sectorSizeBytes'', JNum (Fin 512)) \<in> set option_defaults"
    "(''device'', JStr ''sda'') \<in> set option_defaults"
    "(''units'', JStr ''bytes'') \<in> set option_defaults"
    by (simp_all add: option_defaults_def)
  have "usageRead digits_runtime env_two [''sampleMs'' \<mapsto> JNum (Fin 0)] =
          usageRead digits_runtime env_two [''sampleMs'' \<mapsto> JNum (Fin 1000)]"
    by (rule falsy_option_is_default [OF r f(1) d(1), THEN conjunct2, THEN conjunct1])
  moreover have "usageRead digits_runtime env_two [''sectorSizeBytes'' \<mapsto> JNum (Fin 0)] =
          usageRead digits_runtime env_two [''sectorSizeBytes'' \<mapsto> JNum (Fin 512)]"
    by (rule falsy_option_is_default [OF r f(1) d(2), THEN conjunct2, THEN conjunct1])
  moreover have "usageWrite digits_runtime env_two [''device'' \<mapsto> JStr ''''] =
          usageWrite digits_runtime env_two [''device'' \<mapsto> JStr ''sda'']"
    by (rule falsy_option_is_default [OF w f(2) d(3), THEN conjunct2, THEN conjunct1])
  moreover have "usageWrite digits_runtime env_two [''units'' \<mapsto> JStr ''''] =
          usageWrite digits_runtime env_two [''units'' \<mapsto> JStr ''bytes'']"
    by (rule falsy_option_is_default [OF w f(2) d(4), THEN conjunct2, THEN conjunct1])
  moreover have "usageWrite digits_runtime env_two [''units'' \<mapsto> JNull] =
          usageWrite digits_runtime env_two Map.empty"
    using falsy_option_is_default [OF w f(3) d(4), of digits_runtime env_two Map.empty,
        THEN conjunct1]
    by simp
  ultimately show ?thesis by (simp only: simp_thms)
qed

section \<open>The options object after a call\<close>

lemma apply_defaults_at:
  "apply_defaults opts k =
     (case map_of option_defaults k of
        None \<Rightarrow> opts k
      | Some d \<Rightarrow> Some (js_or (get_opt opts k) d))"
  by (simp add: apply_defaults_eq option_defaults_def)

text \<open>
  C8, as the code has it. \<open>usageRead\<close> and \<open>usageWrite\<close> write the resolved
  defaults into the options object the caller supplied: after the call each of the
  four options holds its former value if that was truthy and its default otherwise. A
  property that held a truthy value keeps it, and every property other than the four
  options is unchanged.
\<close>

theorem defaults_written_to_options:
  assumes "(sample, counter) \<in> set samplers"
  shows "opts_after (sample rt e opts) =
           opts(''sectorSizeBytes'' \<mapsto> js_or (get_opt opts ''sectorSizeBytes'') (JNum (Fin 512)),
                ''sampleMs'' \<mapsto> js_or (get_opt opts ''sampleMs'') (JNum (Fin 1000)),
                ''device'' \<mapsto> js_or (get_opt opts ''device'') (JStr ''sda''),
                ''units'' \<mapsto> js_or (get_opt opts ''units'') (JStr ''bytes'')) \<and>
         (\<forall>k v. opts k = Some v \<and> truthy_prim v \<longrightarrow> opts_after (sample rt e opts) k = Some v) \<and>
         (\<forall>k. k \<notin> set (map fst option_defaults) \<longrightarrow> opts_after (sample rt e opts) k = opts k)"
proof -
  have sample: "sample = usage counter"
    using assms by (rule sampler_cases)
  have a: "opts_after (sample rt e opts) = apply_defaults opts"
    by (simp add: sample usage_opts_after)
  have "opts_after (sample rt e opts) k = Some v" if "opts k = Some v" "truthy_prim v" for k v
    using that by (simp add: a apply_defaults_at get_opt_def js_or_def split: option.split)
  moreover have "opts_after (sample rt e opts) k = opts k"
    if "k \<notin> set (map fst option_defaults)" for k
    using that by (simp add: a apply_defaults_at map_of_eq_None_iff [THEN iffD2])
  ultimately show ?thesis
    by (simp add: a apply_defaults_eq)
qed

theorem defaults_written_to_options_witness:
  "opts_after (usageRead digits_runtime env_two opts_sdb) =
     [''sectorSizeBytes'' \<mapsto> JNum (Fin 512), ''sampleMs'' \<mapsto> JNum (Fin 1000),
      ''device'' \<mapsto> JStr ''sdb'', ''units'' \<mapsto> JStr ''bytes'']"
proof -
  have r: "(usageRead, sectorsRead) \<in> set samplers"
    by (simp add: samplers_def)
  have "opts_sdb(''sectorSizeBytes'' \<mapsto> js_or (get_opt opts_sdb ''sectorSizeBytes'') (JNum (Fin 512)),
                ''sampleMs'' \<mapsto> js_or (get_opt opts_sdb ''sampleMs'') (JNum (Fin 1000)),
                ''device'' \<mapsto> js_or (get_opt opts_sdb ''device'') (JStr ''sda''),
                ''units'' \<mapsto> js_or (get_opt opts_sdb ''units'') (JStr ''bytes'')) =
     [''sectorSizeBytes'' \<mapsto> JNum (Fin 512), ''sampleMs'' \<mapsto> JNum (Fin 1000),
      ''device'' \<mapsto> JStr ''sdb'', ''units'' \<mapsto> JStr ''bytes'']"
    by (auto simp: opts_sdb_def get_opt_def js_or_def)
  with defaults_written_to_options [OF r, of digits_runtime env_two opts_sdb, THEN conjunct1]
  show ?thesis by (simp only:)
qed

text \<open>
  C8 as stated does not hold: an options object without a \<open>sectorSizeBytes\<close>
  property has one, holding 512, after the call.
\<close>

theorem options_object_mutated:
  "(Map.empty :: options) ''sectorSizeBytes'' = None \<and>
   opts_after (usageRead digits_runtime env_two Map.empty) ''sectorSizeBytes'' =
     Some (JNum (Fin 512))"
  by (simp add: usageRead_def usage_opts_after apply_defaults_eq get_opt_def js_or_def)

section \<open>A device that is not in a snapshot\<close>






section \<open>Lines and fields\<close>

lemma trim_strip: "trim s = rstrip (lstrip s)"
  by (simp add: trim_def lstrip_def rstrip_def)

lemma blank_take_drop:
  assumes "list_all is_space post"
  shows "takeWhile (\<lambda>c. \<not> is_space c) post = []" "dropWhile (\<lambda>c. \<not> is_space c) post = post"
  using assms by (cases post; simp)+

lemma fields_of_unfold:
  "fields_of s =
     (if dropWhile is_space s = [] then []
      else takeWhile (\<lambda>c. \<not> is_space c) (dropWhile is_space s) #
           fields_of (dropWhile (\<lambda>c. \<not> is_space c) (dropWhile is_space s)))"
  by (subst fields_of.simps) (simp add: Let_def)

lemma fields_of_blank:
  assumes "list_all is_space s"
  shows "fields_of s = []"
proof -
  from assms have "dropWhile is_space s = []"
    by (simp add: list_all_iff)
  then show ?thesis by (subst fields_of_unfold) simp
qed

lemma fields_of_lstrip: "fields_of (lstrip s) = fields_of s"
  by (subst fields_of_unfold, subst (2) fields_of_unfold) (simp add: lstrip_def)

lemma fields_of_append_blank:
  assumes "list_all is_space post"
  shows "fields_of (s @ post) = fields_of s"
proof (induction s rule: fields_of.induct)
  case (1 s)
  define t where "t = dropWhile is_space s"
  show ?case
  proof (cases "t = []")
    case True
    then have "list_all is_space s"
      by (simp add: t_def list_all_iff)
    with assms have "list_all is_space (s @ post)" by simp
    then have "fields_of (s @ post) = []" by (rule fields_of_blank)
    moreover from \<open>list_all is_space s\<close> have "fields_of s = []" by (rule fields_of_blank)
    ultimately show ?thesis by simp
  next
    case False
    then obtain c where c: "c \<in> set s" "\<not> is_space c"
      by (auto simp: t_def)
    then have d: "dropWhile is_space (s @ post) = t @ post"
      by (simp add: t_def)
    have tk: "takeWhile (\<lambda>c. \<not> is_space c) (t @ post) = takeWhile (\<lambda>c. \<not> is_space c) t"
    proof (cases "\<forall>x\<in>set t. \<not> is_space x")
      case True
      then show ?thesis
        by (simp add: takeWhile_append blank_take_drop [OF assms]
            takeWhile_eq_all_conv [THEN iffD2])
    next
      case False
      then show ?thesis by (auto simp: takeWhile_append)
    qed
    have dr: "dropWhile (\<lambda>c. \<not> is_space c) (t @ post) = dropWhile (\<lambda>c. \<not> is_space c) t @ post"
    proof (cases "\<forall>x\<in>set t. \<not> is_space x")
      case True
      then show ?thesis
        by (simp add: dropWhile_append blank_take_drop [OF assms])
    next
      case False
      then show ?thesis by (auto simp: dropWhile_append)
    qed
    have ih: "fields_of (dropWhile (\<lambda>c. \<not> is_space c) t @ post) =
              fields_of (dropWhile (\<lambda>c. \<not> is_space c) t)"
      using False by (rule "1.IH" [OF t_def])
    have "fields_of (s @ post) =
            takeWhile (\<lambda>c. \<not> is_space c) (t @ post) #
            fields_of (dropWhile (\<lambda>c. \<not> is_space c) (t @ post))"
      using False by (subst fields_of_unfold) (simp add: d)
    also have "\<dots> = takeWhile (\<lambda>c. \<not> is_space c) t # fields_of (dropWhile (\<lambda>c. \<not> is_space c) t)"
      by (simp only: tk dr ih)
    also have "\<dots> = fields_of s"
      using False by (subst (2) fields_of_unfold) (simp add: t_def)
    finally show ?thesis .
  qed
qed

lemma rstrip_decomp: "\<exists>post. list_all is_space post \<and> s = rstrip s @ post"
proof -
  have "rev s = takeWhile is_space (rev s) @ dropWhile is_space (rev s)" by simp
  then have "s = rev (dropWhile is_space (rev s)) @ rev (takeWhile is_space (rev s))"
    by (metis rev_append rev_rev_ident)
  moreover have "list_all is_space (rev (takeWhile is_space (rev s)))"
    by (auto simp: list_all_iff dest: set_takeWhileD)
  ultimately show ?thesis
    unfolding rstrip_def by blast
qed

lemma fields_of_rstrip: "fields_of (rstrip s) = fields_of s"
proof -
  obtain post where "list_all is_space post" "s = rstrip s @ post"
    using rstrip_decomp by blast
  then show ?thesis
    using fields_of_append_blank [of post "rstrip s"] by simp
qed

lemma fields_of_trim: "fields_of (trim s) = fields_of s"
  by (simp add: trim_strip fields_of_rstrip fields_of_lstrip)

lemma fields_of_nonempty: "fields_of s \<noteq> [] \<longleftrightarrow> (\<exists>c\<in>set s. \<not> is_space c)"
  by (subst fields_of_unfold) auto


lemma split_ws_unfold:
  "split_ws s =
     (if dropWhile (\<lambda>c. \<not> is_space c) s = [] then [takeWhile (\<lambda>c. \<not> is_space c) s]
      else takeWhile (\<lambda>c. \<not> is_space c) s #
           split_ws (dropWhile is_space (dropWhile (\<lambda>c. \<not> is_space c) s)))"
  by (subst split_ws.simps) (simp add: Let_def)

lemma split_ws_fields:
  assumes "s \<noteq> []" "\<not> is_space (hd s)" "\<not> is_space (last s)"
  shows "split_ws s = fields_of s"
  using assms
proof (induction s rule: split_ws.induct)
  case (1 s)
  define w where "w = takeWhile (\<lambda>c. \<not> is_space c) s"
  define r where "r = dropWhile (\<lambda>c. \<not> is_space c) s"
  from "1.prems"(1,2) have ls: "dropWhile is_space s = s"
    by (cases s) simp_all
  have fs: "fields_of s = w # fields_of r"
    using "1.prems"(1) by (subst fields_of_unfold) (simp add: ls w_def r_def)
  show ?case
  proof (cases "r = []")
    case True
    then have "fields_of r = []" by (simp add: fields_of_blank)
    with True fs show ?thesis
      by (subst split_ws_unfold) (simp add: w_def r_def)
  next
    case False
    define r' where "r' = dropWhile is_space r"
    from False have "last r = last s"
      unfolding r_def by (metis append_is_Nil_conv last_appendR takeWhile_dropWhile_id)
    with "1.prems"(3) have lr: "\<not> is_space (last r)" by simp
    from False have "last r \<in> set r" by simp
    with lr have ne: "r' \<noteq> []" and last: "last r' = last r"
      unfolding r'_def by (auto simp: dropWhile_last)
    from ne have hd: "\<not> is_space (hd r')"
      unfolding r'_def by (rule hd_dropWhile)
    have "split_ws r' = fields_of r'"
      using False ne hd lr unfolding r'_def [symmetric] last [symmetric]
      by (intro "1.IH" [OF w_def r_def, folded r'_def]) simp_all
    also have "\<dots> = fields_of r"
      unfolding r'_def using fields_of_lstrip [of r] by (simp add: lstrip_def)
    finally have "split_ws r' = fields_of r" .
    with False fs show ?thesis
      by (subst split_ws_unfold) (auto simp: w_def r_def r'_def)
  qed
qed

lemma trim_nonblank:
  assumes "c \<in> set s" "\<not> is_space c"
  shows "trim s \<noteq> []" "\<not> is_space (hd (trim s))" "\<not> is_space (last (trim s))"
proof -
  define t where "t = dropWhile is_space s"
  define u where "u = dropWhile is_space (rev t)"
  from assms have t: "t \<noteq> []" by (auto simp: t_def)
  then have ht: "\<not> is_space (hd t)" unfolding t_def by (rule hd_dropWhile)
  from t have "hd t \<in> set (rev t)" by simp
  with ht have u: "u \<noteq> []" and lu: "last u = last (rev t)"
    unfolding u_def by (auto simp: dropWhile_last)
  from u have hu: "\<not> is_space (hd u)" unfolding u_def by (rule hd_dropWhile)
  have tr: "trim s = rev u" by (simp add: trim_def t_def u_def)
  from u show "trim s \<noteq> []" by (simp add: tr)
  from u lu t ht show "\<not> is_space (hd (trim s))"
    by (simp add: tr hd_rev last_rev)
  from u hu show "\<not> is_space (last (trim s))"
    by (simp add: tr last_rev)
qed

lemma split_ws_trim:
  assumes "fields_of l \<noteq> []"
  shows "split_ws (trim l) = fields_of l"
proof -
  from assms obtain c where "c \<in> set l" "\<not> is_space c"
    by (auto simp: fields_of_nonempty)
  then have "split_ws (trim l) = fields_of (trim l)"
    by (intro split_ws_fields trim_nonblank)
  then show ?thesis by (simp add: fields_of_trim)
qed


lemma split_nl_no_nl:
  assumes "CHR 0x0A \<notin> set s"
  shows "split_nl s = [s]"
  using assms by (induction s) auto

lemma split_nl_append:
  assumes "CHR 0x0A \<notin> set a"
  shows "split_nl (a @ CHR 0x0A # b) = a # split_nl b"
  using assms by (induction a) auto

lemma join_lines_Cons:
  "join_lines (l # ls) = l @ (if ls = [] then [] else CHR 0x0A # join_lines ls)"
  by (cases ls) simp_all

lemma join_lines_snoc:
  "join_lines (ls @ [l]) = (if ls = [] then l else join_lines ls @ CHR 0x0A # l)"
  by (induction ls rule: join_lines.induct) simp_all

lemma split_nl_join:
  assumes "ls \<noteq> []" "\<forall>l\<in>set ls. CHR 0x0A \<notin> set l"
  shows "split_nl (join_lines ls) = ls"
  using assms
proof (induction ls rule: join_lines.induct)
  case 1
  then show ?case by simp
next
  case (2 l)
  then show ?case by (simp add: split_nl_no_nl)
next
  case (3 l m ms)
  then show ?case by (simp add: split_nl_append)
qed

lemma lstrip_append:
  assumes "fields_of a \<noteq> []"
  shows "lstrip (a @ b) = lstrip a @ b"
proof -
  from assms obtain c where "c \<in> set a" "\<not> is_space c"
    by (auto simp: fields_of_nonempty)
  then show ?thesis by (simp add: lstrip_def)
qed

lemma rstrip_append:
  assumes "fields_of b \<noteq> []"
  shows "rstrip (a @ b) = a @ rstrip b"
proof -
  from assms obtain c where "c \<in> set (rev b)" "\<not> is_space c"
    by (auto simp: fields_of_nonempty)
  then show ?thesis by (simp add: rstrip_def)
qed

lemma lstrip_blank_append:
  assumes "list_all is_space pre"
  shows "lstrip (pre @ s) = lstrip s"
  using assms by (simp add: lstrip_def list_all_iff)

lemma rstrip_append_blank:
  assumes "list_all is_space post"
  shows "rstrip (s @ post) = rstrip s"
proof -
  from assms have "dropWhile is_space (rev post @ rev s) = dropWhile is_space (rev s)"
    by (intro dropWhile_append2) (simp add: list_all_iff)
  then show ?thesis by (simp add: rstrip_def)
qed

lemma set_lstrip: "set (lstrip s) \<subseteq> set s"
  by (auto simp: lstrip_def dest: set_dropWhileD)

lemma set_rstrip: "set (rstrip s) \<subseteq> set s"
  by (auto simp: rstrip_def dest: set_dropWhileD)

lemma lstrip_join:
  assumes "fields_of l \<noteq> []"
  shows "lstrip (join_lines (l # ls)) = join_lines (lstrip l # ls)"
  using assms by (simp add: join_lines_Cons lstrip_append)

lemma rstrip_join:
  assumes "fields_of l \<noteq> []"
  shows "rstrip (join_lines (ls @ [l])) = join_lines (ls @ [rstrip l])"
proof (cases "ls = []")
  case True
  then show ?thesis by simp
next
  case False
  have "rstrip (join_lines ls @ CHR 0x0A # l) = (join_lines ls @ [CHR 0x0A]) @ rstrip l"
    using rstrip_append [OF assms, of "join_lines ls @ [CHR 0x0A]"] by simp
  with False show ?thesis by (simp add: join_lines_snoc)
qed

text \<open>Trimming the text of a file changes its first and its last line only, and not their fields.\<close>

lemma trim_join:
  assumes "ls \<noteq> []"
    and "\<forall>l\<in>set ls. CHR 0x0A \<notin> set l \<and> fields_of l \<noteq> []"
    and "list_all is_space pre" "list_all is_space post"
  shows "\<exists>ls'. trim (pre @ join_lines ls @ post) = join_lines ls' \<and> ls' \<noteq> [] \<and>
           map fields_of ls' = map fields_of ls \<and> (\<forall>l\<in>set ls'. CHR 0x0A \<notin> set l)"
proof -
  from assms(1) obtain l ms where ls: "ls = l # ms" by (cases ls) auto
  with assms(2) have l: "fields_of l \<noteq> []" by simp
  define k where "k = lstrip l"
  have k: "fields_of k = fields_of l" by (simp add: k_def fields_of_lstrip)
  have "fields_of (join_lines ls) \<noteq> []"
    using l by (auto simp: ls join_lines_Cons fields_of_nonempty)
  then have "lstrip (pre @ join_lines ls @ post) = lstrip (join_lines ls) @ post"
    by (simp add: lstrip_blank_append [OF assms(3)] lstrip_append)
  also have "\<dots> = join_lines (k # ms) @ post"
    by (simp add: ls lstrip_join [OF l] k_def)
  finally have "trim (pre @ join_lines ls @ post) = rstrip (join_lines (k # ms))"
    by (simp add: trim_strip rstrip_append_blank [OF assms(4)])
  moreover obtain ns n where snoc: "k # ms = ns @ [n]"
    by (metis list.distinct(1) rev_exhaust)
  moreover have n: "fields_of n \<noteq> []"
  proof (cases "ms = []")
    case True
    with snoc have "n = k" by simp
    with k l show ?thesis by simp
  next
    case False
    with snoc have "n = last ms" by (metis last.simps last_snoc)
    with False have "n \<in> set ls" by (simp add: ls)
    with assms(2) show ?thesis by simp
  qed
  ultimately have tr: "trim (pre @ join_lines ls @ post) = join_lines (ns @ [rstrip n])"
    by (simp add: rstrip_join)
  have "map fields_of (ns @ [rstrip n]) = map fields_of (ns @ [n])"
    by (simp add: fields_of_rstrip)
  also have "\<dots> = map fields_of ls"
    unfolding snoc [symmetric] by (simp add: ls k)
  finally have f: "map fields_of (ns @ [rstrip n]) = map fields_of ls" .
  have "set k \<subseteq> set l" unfolding k_def by (rule set_lstrip)
  with assms(2) have "\<forall>x\<in>set (k # ms). CHR 0x0A \<notin> set x"
    by (auto simp: ls)
  then have "\<forall>x\<in>set (ns @ [n]). CHR 0x0A \<notin> set x"
    by (simp only: snoc)
  with set_rstrip [of n] have "\<forall>x\<in>set (ns @ [rstrip n]). CHR 0x0A \<notin> set x"
    by auto
  with tr f show ?thesis by blast
qed

lemma lines_values:
  assumes "ls \<noteq> []"
    and "\<forall>l\<in>set ls. CHR 0x0A \<notin> set l \<and> fields_of l \<noteq> []"
    and "list_all is_space pre" "list_all is_space post"
  shows "map (\<lambda>l. split_ws (trim l)) (split_nl (trim (pre @ join_lines ls @ post))) =
         map fields_of ls"
proof -
  from trim_join [OF assms] obtain ls' where
    tr: "trim (pre @ join_lines ls @ post) = join_lines ls'" and ne: "ls' \<noteq> []" and
    f: "map fields_of ls' = map fields_of ls" and nl: "\<forall>l\<in>set ls'. CHR 0x0A \<notin> set l"
    by blast
  have "\<forall>l\<in>set ls'. fields_of l \<noteq> []"
  proof
    fix l assume "l \<in> set ls'"
    then have "fields_of l \<in> set (map fields_of ls)"
      unfolding f [symmetric] by simp
    with assms(2) show "fields_of l \<noteq> []" by auto
  qed
  then have "map (\<lambda>l. split_ws (trim l)) ls' = map fields_of ls'"
    by (simp add: split_ws_trim)
  with f show ?thesis
    by (simp add: tr split_nl_join [OF ne nl])
qed

section \<open>The loop over the lines\<close>

lemma parseContent_fold:
  "parseContent diskstats =
     foldl store_values empty_data (map (\<lambda>l. split_ws (trim l)) (split_nl (trim diskstats)))"
proof -
  have "parse_line = (\<lambda>d l. store_values d (split_ws (trim l)))"
    by (intro ext) (simp add: parse_line_def store_values_def Let_def)
  then show ?thesis
    by (simp add: parseContent_def foldl_map)
qed

lemma fold_store:
  assumes "\<forall>vs\<in>set vss. device_key vs \<noteq> ''__proto__''"
  shows "foldl store_values d vss = d\<lparr>own_props := own_props d ++ map_of (rev (entries vss))\<rparr>"
  using assms
proof (induction vss arbitrary: d)
  case Nil
  then show ?case by (simp add: entries_def)
next
  case (Cons vs vss)
  then have "device_key vs \<noteq> ''__proto__''" by simp
  then have sv: "store_values d vs = d\<lparr>own_props := (own_props d)(device_key vs \<mapsto> stats_of vs)\<rparr>"
    by (simp add: store_values_def set_prop_def)
  from Cons have "foldl store_values (store_values d vs) vss =
      (store_values d vs)\<lparr>own_props := own_props (store_values d vs) ++ map_of (rev (entries vss))\<rparr>"
    by simp
  then show ?case
    by (simp add: sv entries_def)
qed



lemma stats_of_14:
  assumes "length vs = 14"
  shows "stats_of vs =
     \<lparr>deviceNumber = JStr (vs ! 0), deviceNumberMinor = JStr (vs ! 1),
      readsCompleted = JStr (vs ! 3), readsMerged = JStr (vs ! 4),
      sectorsRead = JStr (vs ! 5), msReading = JStr (vs ! 6),
      writesCompleted = JStr (vs ! 7), writesMerged = JStr (vs ! 8),
      sectorsWritten = JStr (vs ! 9), msWriting = JStr (vs ! 10),
      iosPending = JStr (vs ! 11), msIo = JStr (vs ! 12), msWeightedIo = JStr (vs ! 13)\<rparr>"
  using assms by (simp add: stats_of_def nth_value_def)

section \<open>The snapshot of a well-formed file\<close>

lemma parse_lines:
  assumes "ls \<noteq> []"
    and "\<forall>l\<in>set ls. CHR 0x0A \<notin> set l \<and> fields_of l \<noteq> []"
    and "\<forall>l\<in>set ls. device_key (fields_of l) \<noteq> ''__proto__''"
    and "list_all is_space pre" "list_all is_space post"
  shows "parseContent (pre @ join_lines ls @ post) =
           \<lparr>own_props = map_of (rev (entries (map fields_of ls))), proto_obj = None\<rparr>"
proof -
  have "parseContent (pre @ join_lines ls @ post) =
          foldl store_values empty_data (map fields_of ls)"
    by (simp only: parseContent_fold lines_values [OF assms(1,2,4,5)])
  also have "\<dots> = empty_data\<lparr>own_props := own_props empty_data ++
                       map_of (rev (entries (map fields_of ls)))\<rparr>"
    using assms(3) by (intro fold_store) simp
  finally show ?thesis by (simp add: empty_data_def)
qed

lemma entries_keys: "map fst (entries vss) = map device_key vss"
  by (simp add: entries_def comp_def)

lemma example_fields:
  "fields_of line_sda =
     [''8'', ''0'', ''sda'', ''100'', ''20'', ''1000'', ''40'', ''50'', ''60'', ''7000'', ''80'',
      ''0'', ''100'', ''110'']"
  "fields_of line_sdb =
     [''8'', ''16'', ''sdb'', ''5'', ''6'', ''9007199254740993'', ''8'', ''9'', ''10'', ''11'',
      ''12'', ''13'', ''14'', ''15'']"
  by code_simp+

lemma example_no_newline: "CHR 0x0A \<notin> set line_sda" "CHR 0x0A \<notin> set line_sdb"
  by code_simp+

lemma proto_line_values:
  "map (\<lambda>l. split_ws (trim l)) (split_nl (trim proto_line)) =
     [[''8'', ''0'', ''__proto__'', ''130'', ''20'', ''3000'', ''40'', ''50'', ''60'', ''7000'',
       ''80'', ''0'', ''100'', ''110'']]"
  by code_simp

text \<open>
  C4, as the code has it. Take a statistics file of \<open>N \<ge> 1\<close> lines, each without a
  line feed and with 14 white-space-separated fields, whose third fields are pairwise
  distinct and none of them \<^verbatim>\<open>__proto__\<close>, with any white space before the first
  line and after the last. Then \<open>raw\<close> returns an object whose prototype is
  untouched and which has exactly \<open>N\<close> own properties, keyed by the third field of
  each line. The record of a line holds the other thirteen fields in their places,
  each as the exact text of the field: nothing is converted to a number, so a counter
  such as 9007199254740993 is kept digit for digit.
\<close>

theorem raw_well_formed:
  assumes "ls \<noteq> []"
    and "\<forall>l\<in>set ls. CHR 0x0A \<notin> set l \<and> length (fields_of l) = 14"
    and "distinct (map (\<lambda>l. fields_of l ! 2) ls)"
    and "\<forall>l\<in>set ls. fields_of l ! 2 \<noteq> ''__proto__''"
    and "list_all is_space pre" and "list_all is_space post"
    and "diskstats = pre @ join_lines ls @ post"
  shows "raw (Some diskstats) = Inr (parseContent diskstats) \<and>
         proto_obj (parseContent diskstats) = None \<and>
         dom (own_props (parseContent diskstats)) = (\<lambda>l. fields_of l ! 2) ` set ls \<and>
         card (dom (own_props (parseContent diskstats))) = length ls \<and>
         (\<forall>l\<in>set ls. own_props (parseContent diskstats) (fields_of l ! 2) =
            Some \<lparr>deviceNumber = JStr (fields_of l ! 0),
                  deviceNumberMinor = JStr (fields_of l ! 1),
                  readsCompleted = JStr (fields_of l ! 3),
                  readsMerged = JStr (fields_of l ! 4),
                  sectorsRead = JStr (fields_of l ! 5),
                  msReading = JStr (fields_of l ! 6),
                  writesCompleted = JStr (fields_of l ! 7),
                  writesMerged = JStr (fields_of l ! 8),
                  sectorsWritten = JStr (fields_of l ! 9),
                  msWriting = JStr (fields_of l ! 10),
                  iosPending = JStr (fields_of l ! 11),
                  msIo = JStr (fields_of l ! 12),
                  msWeightedIo = JStr (fields_of l ! 13)\<rparr>)"
proof -
  let ?E = "entries (map fields_of ls)"
  have key: "device_key (fields_of l) = fields_of l ! 2" if "l \<in> set ls" for l
    using that assms(2) by (simp add: device_key_def)
  have ne: "\<forall>l\<in>set ls. CHR 0x0A \<notin> set l \<and> fields_of l \<noteq> []"
    using assms(2) by auto
  have np: "\<forall>l\<in>set ls. device_key (fields_of l) \<noteq> ''__proto__''"
    using assms(4) key by simp
  have p: "parseContent diskstats = \<lparr>own_props = map_of (rev ?E), proto_obj = None\<rparr>"
    unfolding assms(7) using assms(1) ne np assms(5,6) by (rule parse_lines)
  have keys: "map fst ?E = map (\<lambda>l. fields_of l ! 2) ls"
    using key by (simp add: entries_keys)
  have d: "distinct (map fst (rev ?E))"
    by (simp add: rev_map [symmetric] keys assms(3))
  have dom: "dom (own_props (parseContent diskstats)) = (\<lambda>l. fields_of l ! 2) ` set ls"
  proof -
    have "dom (map_of (rev ?E)) = set (map fst ?E)"
      by (simp add: dom_map_of_conv_image_fst)
    then show ?thesis by (simp add: p keys)
  qed
  have card: "card (dom (own_props (parseContent diskstats))) = length ls"
  proof -
    have "card (set (map (\<lambda>l. fields_of l ! 2) ls)) = length (map (\<lambda>l. fields_of l ! 2) ls)"
      using assms(3) by (rule distinct_card)
    then show ?thesis by (simp add: dom)
  qed
  have look: "own_props (parseContent diskstats) (fields_of l ! 2) = Some (stats_of (fields_of l))"
    if "l \<in> set ls" for l
  proof -
    from that have "(fields_of l ! 2, stats_of (fields_of l)) \<in> set (rev ?E)"
      by (auto simp: entries_def key)
    with d have "map_of (rev ?E) (fields_of l ! 2) = Some (stats_of (fields_of l))"
      by (rule map_of_is_SomeI)
    then show ?thesis by (simp add: p)
  qed
  have "\<forall>l\<in>set ls. own_props (parseContent diskstats) (fields_of l ! 2) =
            Some \<lparr>deviceNumber = JStr (fields_of l ! 0),
                  deviceNumberMinor = JStr (fields_of l ! 1),
                  readsCompleted = JStr (fields_of l ! 3),
                  readsMerged = JStr (fields_of l ! 4),
                  sectorsRead = JStr (fields_of l ! 5),
                  msReading = JStr (fields_of l ! 6),
                  writesCompleted = JStr (fields_of l ! 7),
                  writesMerged = JStr (fields_of l ! 8),
                  sectorsWritten = JStr (fields_of l ! 9),
                  msWriting = JStr (fields_of l ! 10),
                  iosPending = JStr (fields_of l ! 11),
                  msIo = JStr (fields_of l ! 12),
                  msWeightedIo = JStr (fields_of l ! 13)\<rparr>"
  proof
    fix l assume l: "l \<in> set ls"
    with assms(2) have "length (fields_of l) = 14" by simp
    then show "own_props (parseContent diskstats) (fields_of l ! 2) =
            Some \<lparr>deviceNumber = JStr (fields_of l ! 0),
                  deviceNumberMinor = JStr (fields_of l ! 1),
                  readsCompleted = JStr (fields_of l ! 3),
                  readsMerged = JStr (fields_of l ! 4),
                  sectorsRead = JStr (fields_of l ! 5),
                  msReading = JStr (fields_of l ! 6),
                  writesCompleted = JStr (fields_of l ! 7),
                  writesMerged = JStr (fields_of l ! 8),
                  sectorsWritten = JStr (fields_of l ! 9),
                  msWriting = JStr (fields_of l ! 10),
                  iosPending = JStr (fields_of l ! 11),
                  msIo = JStr (fields_of l ! 12),
                  msWeightedIo = JStr (fields_of l ! 13)\<rparr>"
      by (simp only: look [OF l] stats_of_14)
  qed
  moreover have "raw (Some diskstats) = Inr (parseContent diskstats)"
    by (simp add: raw_def parseProcDiskstats_def)
  moreover have "proto_obj (parseContent diskstats) = None"
    by (simp add: p)
  ultimately show ?thesis
    using dom card by (simp only: simp_thms)
qed

theorem raw_well_formed_witness:
  "card (dom (own_props (parseContent stats_t0))) = 2 \<and>
   own_props (parseContent stats_t0) ''sda'' = Some sda_t0 \<and>
   own_props (parseContent stats_t0) ''sdb'' = Some sdb_t0"
proof -
  have a1: "[line_sda, line_sdb] \<noteq> []" by simp
  have a2: "\<forall>l\<in>set [line_sda, line_sdb]. CHR 0x0A \<notin> set l \<and> length (fields_of l) = 14"
    by (simp add: example_fields example_no_newline)
  have a3: "distinct (map (\<lambda>l. fields_of l ! 2) [line_sda, line_sdb])"
    by (simp add: example_fields)
  have a4: "\<forall>l\<in>set [line_sda, line_sdb]. fields_of l ! 2 \<noteq> ''__proto__''"
    by (simp add: example_fields)
  have a5: "list_all is_space []" and a6: "list_all is_space [CHR 0x0A]"
    by (simp_all add: is_space_def)
  have a7: "stats_t0 = [] @ join_lines [line_sda, line_sdb] @ [CHR 0x0A]"
    by (simp add: stats_t0_def)
  note w = raw_well_formed [OF a1 a2 a3 a4 a5 a6 a7]
  from w have "card (dom (own_props (parseContent stats_t0))) = length [line_sda, line_sdb]"
    by blast
  then have "card (dom (own_props (parseContent stats_t0))) = 2"
    by simp
  moreover from w have "own_props (parseContent stats_t0) (fields_of line_sda ! 2) =
      Some \<lparr>deviceNumber = JStr (fields_of line_sda ! 0),
                  deviceNumberMinor = JStr (fields_of line_sda ! 1),
                  readsCompleted = JStr (fields_of line_sda ! 3),
                  readsMerged = JStr (fields_of line_sda ! 4),
                  sectorsRead = JStr (fields_of line_sda ! 5),
                  msReading = JStr (fields_of line_sda ! 6),
                  writesCompleted = JStr (fields_of line_sda ! 7),
                  writesMerged = JStr (fields_of line_sda ! 8),
                  sectorsWritten = JStr (fields_of line_sda ! 9),
                  msWriting = JStr (fields_of line_sda ! 10),
                  iosPending = JStr (fields_of line_sda ! 11),
                  msIo = JStr (fields_of line_sda ! 12),
                  msWeightedIo = JStr (fields_of line_sda ! 13)\<rparr>"
    by simp
  then have "own_props (parseContent stats_t0) ''sda'' = Some sda_t0"
    by (simp add: example_fields sda_t0_def)
  moreover from w have "own_props (parseContent stats_t0) (fields_of line_sdb ! 2) =
      Some \<lparr>deviceNumber = JStr (fields_of line_sdb ! 0),
                  deviceNumberMinor = JStr (fields_of line_sdb ! 1),
                  readsCompleted = JStr (fields_of line_sdb ! 3),
                  readsMerged = JStr (fields_of line_sdb ! 4),
                  sectorsRead = JStr (fields_of line_sdb ! 5),
                  msReading = JStr (fields_of line_sdb ! 6),
                  writesCompleted = JStr (fields_of line_sdb ! 7),
                  writesMerged = JStr (fields_of line_sdb ! 8),
                  sectorsWritten = JStr (fields_of line_sdb ! 9),
                  msWriting = JStr (fields_of line_sdb ! 10),
                  iosPending = JStr (fields_of line_sdb ! 11),
                  msIo = JStr (fields_of line_sdb ! 12),
                  msWeightedIo = JStr (fields_of line_sdb ! 13)\<rparr>"
    by simp
  then have "own_props (parseContent stats_t0) ''sdb'' = Some sdb_t0"
    by (simp add: example_fields sdb_t0_def)
  ultimately show ?thesis by simp
qed

text \<open>
  C4 as stated does not hold. The empty file has no line and gives one entry, under
  the key \<^verbatim>\<open>undefined\<close>; and a line with 14 fields whose third field is
  \<^verbatim>\<open>__proto__\<close> gives no entry at all.
\<close>

theorem raw_entry_count_differs:
  "own_props (parseContent []) ''undefined'' =
     Some \<lparr>deviceNumber = JStr [], deviceNumberMinor = JUndefined,
           readsCompleted = JUndefined, readsMerged = JUndefined, sectorsRead = JUndefined,
           msReading = JUndefined, writesCompleted = JUndefined, writesMerged = JUndefined,
           sectorsWritten = JUndefined, msWriting = JUndefined, iosPending = JUndefined,
           msIo = JUndefined, msWeightedIo = JUndefined\<rparr> \<and>
   length (fields_of proto_line) = 14 \<and>
   own_props (parseContent proto_line) = Map.empty"
proof -
  have "own_props (parseContent []) ''undefined'' =
     Some \<lparr>deviceNumber = JStr [], deviceNumberMinor = JUndefined,
           readsCompleted = JUndefined, readsMerged = JUndefined, sectorsRead = JUndefined,
           msReading = JUndefined, writesCompleted = JUndefined, writesMerged = JUndefined,
           sectorsWritten = JUndefined, msWriting = JUndefined, iosPending = JUndefined,
           msIo = JUndefined, msWeightedIo = JUndefined\<rparr>"
    by code_simp
  moreover have "length (fields_of proto_line) = 14"
    by code_simp
  moreover have "own_props (parseContent proto_line) = Map.empty"
    by (simp add: parseContent_fold proto_line_values store_values_def set_prop_def
        device_key_def empty_data_def)
  ultimately show ?thesis by (simp only: simp_thms)
qed

section \<open>Lines with fewer than 14 fields\<close>






section \<open>Further properties of the code\<close>

text \<open>
  What \<open>bytesTo\<close> returns for the four units on a finite value that is not zero: the
  value itself, the value over 1024, and for MiB and GiB the value over the product
  of all the divisors applied so far.
\<close>

theorem bytesTo_recognized:
  assumes "v \<noteq> 0"
  shows "bytesTo (Fin v) ''bytes'' = (Prim (JNum (Fin v)), []) \<and>
         bytesTo (Fin v) ''KiB'' = (Prim (JNum (Fin (v / 1024))), []) \<and>
         bytesTo (Fin v) ''MiB'' = (Prim (JNum (Fin (v / (1024 * 1024 ^ 2)))), []) \<and>
         bytesTo (Fin v) ''GiB'' = (Prim (JNum (Fin (v / (1024 * 1024 ^ 2 * 1024 ^ 3)))), [])"
  using assms by (simp add: bytesTo_def unit_table_simp literal_get_def)

theorem bytesTo_recognized_witness:
  "bytesTo (Fin 1048576) ''bytes'' = (Prim (JNum (Fin 1048576)), []) \<and>
   bytesTo (Fin (1024 * 1024 ^ 2 * 1024 ^ 3)) ''GiB'' = (Prim (JNum (Fin 1)), [])"
proof -
  have "(1048576::rat) \<noteq> 0" and "(1024 * 1024 ^ 2 * 1024 ^ 3 :: rat) \<noteq> 0"
    by simp_all
  from bytesTo_recognized [OF this(1)] bytesTo_recognized [OF this(2)]
  show ?thesis by simp
qed

text \<open>
  A failing read of the statistics file: at the first read the exception is thrown to
  the caller before the delay; at the second read it is raised inside the executor
  and the promise never settles.
\<close>

theorem read_failure_outcomes:
  assumes "(sample, counter) \<in> set samplers"
  shows "(file0 e = None \<longrightarrow>
            outcome (sample rt e opts) = Thrown IOError \<and> delay_arg (sample rt e opts) = None) \<and>
         (\<forall>r0. snapshot (file0 e) (device_name rt opts) = Some r0 \<and> file1 e = None \<longrightarrow>
            outcome (sample rt e opts) = Unsettled IOError)"
proof (intro conjI allI impI)
  have sample: "sample = usage counter"
    using assms by (rule sampler_cases)
  {
    assume "file0 e = None"
    then show "outcome (sample rt e opts) = Thrown IOError"
      and "delay_arg (sample rt e opts) = None"
      by (simp_all add: sample usage_def Let_def parseProcDiskstats_def)
  }
  fix r0
  assume h: "snapshot (file0 e) (device_name rt opts) = Some r0 \<and> file1 e = None"
  then obtain c0 where c0: "file0 e = Some c0"
    "own_props (parseContent c0) (device_name rt opts) = Some r0"
    by (auto elim: snapshot_SomeD)
  have "read_counter counter (get_prop (parseContent c0) (device_name rt opts)) = Inr (counter r0)"
    using c0(2) by (rule read_counter_own)
  with h c0(1) show "outcome (sample rt e opts) = Unsettled IOError"
    by (simp add: sample usage_def Let_def parseProcDiskstats_def device_name_def)
qed

theorem read_failure_outcomes_witness:
  "outcome (usageRead digits_runtime \<lparr>file0 = None, file1 = None, hr_diff = (1, 0)\<rparr> Map.empty) =
     Thrown IOError \<and>
   outcome (usageWrite digits_runtime \<lparr>file0 = Some stats_t0, file1 = None, hr_diff = (1, 0)\<rparr>
     Map.empty) = Unsettled IOError"
proof -
  have r: "(usageRead, sectorsRead) \<in> set samplers"
    and w: "(usageWrite, sectorsWritten) \<in> set samplers"
    by (simp_all add: samplers_def)
  have s: "snapshot (file0 \<lparr>file0 = Some stats_t0, file1 = None, hr_diff = (1, 0)\<rparr>)
             (device_name digits_runtime Map.empty) = Some sda_t0"
    using snap0_sda by (simp add: default_names env_two_def)
  from read_failure_outcomes [OF r, of "\<lparr>file0 = None, file1 = None, hr_diff = (1, 0)\<rparr>"
      digits_runtime Map.empty]
  have "outcome (usageRead digits_runtime \<lparr>file0 = None, file1 = None, hr_diff = (1, 0)\<rparr>
          Map.empty) = Thrown IOError"
    by simp
  moreover from read_failure_outcomes [OF w,
      of "\<lparr>file0 = Some stats_t0, file1 = None, hr_diff = (1, 0)\<rparr>" digits_runtime Map.empty] s
  have "outcome (usageWrite digits_runtime \<lparr>file0 = Some stats_t0, file1 = None, hr_diff = (1, 0)\<rparr>
          Map.empty) = Unsettled IOError"
    by simp
  ultimately show ?thesis by simp
qed

text \<open>
  With the unit \<open>bytes\<close>, counters that differ and a sector size that is not zero,
  a call resolves with the rate of lines 117 and 118 and writes nothing to the console.
\<close>

theorem resolves_with_rate_in_bytes:
  assumes "(sample, counter) \<in> set samplers"
    and "snapshot (file0 e) (device_name rt opts) = Some r0"
    and "snapshot (file1 e) (device_name rt opts) = Some r1"
    and "to_number rt (counter r0) = Fin c0" and "to_number rt (counter r1) = Fin c1"
    and "c0 \<noteq> c1"
    and "sector_size rt opts = Fin s" and "s \<noteq> 0"
    and "diffSeconds (hr_diff e) = Fin t" and "0 < t"
    and "units_name rt opts = ''bytes''"
  shows "outcome (sample rt e opts) = Resolved (Prim (JNum (Fin ((c1 - c0) * s / (t * t))))) \<and>
         console (sample rt e opts) = []"
proof -
  have sample: "sample = usage counter"
    using assms(1) by (rule sampler_cases)
  have rate: "raw_rate rt (counter r0) (counter r1)
                 (get_opt (apply_defaults opts) ''sectorSizeBytes'') (Fin t) =
             Fin ((c1 - c0) * s / (t * t))"
    using assms(4,5) assms(7) [unfolded sector_size_def] assms(10) by (rule raw_rate_fin)
  have nz: "(c1 - c0) * s / (t * t) \<noteq> 0"
    using assms(6,8,10) by simp
  have "bytesTo (Fin ((c1 - c0) * s / (t * t))) ''bytes'' =
          (Prim (JNum (Fin ((c1 - c0) * s / (t * t)))), [])"
    using nz by (simp add: bytesTo_def unit_table_simp literal_get_def)
  then show ?thesis
    using assms(9,11) rate
    by (simp add: sample usage_resolved [OF assms(2,3)] Let_def)
qed

theorem resolves_with_rate_in_bytes_witness:
  "outcome (usageRead digits_runtime env_two Map.empty) = Resolved (Prim (JNum (Fin 256000)))"
proof -
  have r: "(usageRead, sectorsRead) \<in> set samplers"
    by (simp add: samplers_def)
  have n0: "to_number digits_runtime (sectorsRead sda_t0) = Fin 1000"
    and n1: "to_number digits_runtime (sectorsRead sda_t1) = Fin 3000"
    by (simp_all add: example_counters example_numbers)
  have s0: "snapshot (file0 env_two) (device_name digits_runtime Map.empty) = Some sda_t0"
    and s1: "snapshot (file1 env_two) (device_name digits_runtime Map.empty) = Some sda_t1"
    by (simp_all only: default_names snap0_sda snap1_sda)
  have ne: "(1000::rat) \<noteq> 3000" and s: "(512::rat) \<noteq> 0" and t: "(0::rat) < 2"
    by simp_all
  from resolves_with_rate_in_bytes [OF r s0 s1 n0 n1 ne default_names(3) s example_time t
      default_names(2)]
  show ?thesis by simp
qed

end
